theory Spec2Isabelle
  imports Complex_Main
begin

section \<open>Python values shared by both scripts\<close>

text \<open>
  Exceptions are values. Only the classes that the scripts can meet are listed;
  \<open>OSError\<close> stands for every failure of a file operation.
\<close>

datatype exn =
    ValueError
  | OverflowError
  | ZeroDivisionError
  | EOFError
  | OSError

text \<open>
  A Python \<open>float\<close>. Finite values are idealised as reals (rounding to a double is not
  modelled); the three special values are kept apart because \<open>float()\<close> accepts their
  names and the operations below treat them differently.
\<close>

datatype pyfloat = Finite real | PosInf | NegInf | NaN

text \<open>\<open>1 / x\<close> on floats: division by zero raises, \<open>1 / inf\<close> is \<open>0.0\<close>.\<close>

fun py_recip :: "pyfloat \<Rightarrow> exn + pyfloat" where
  "py_recip (Finite r) = (if r = 0 then Inl ZeroDivisionError else Inr (Finite (1 / r)))"
| "py_recip PosInf = Inr (Finite 0)"
| "py_recip NegInf = Inr (Finite 0)"
| "py_recip NaN = Inr NaN"

text \<open>\<open>x > 0\<close> on floats: every comparison with \<open>nan\<close> is false.\<close>

fun py_gt0 :: "pyfloat \<Rightarrow> bool" where
  "py_gt0 (Finite r) = (0 < r)"
| "py_gt0 PosInf = True"
| "py_gt0 NegInf = False"
| "py_gt0 NaN = False"

text \<open>
  \<open>time.sleep(x)\<close> first turns \<open>x\<close> into a signed 64-bit count of nanoseconds:
  \<open>nan\<close> raises \<open>ValueError\<close>, and a value outside that range, from \<open>2 ^ 63\<close>
  nanoseconds (a little over \<open>9.2e9\<close> seconds) upwards and the infinite ones
  included, raises \<open>OverflowError\<close>. A negative value in range then raises
  \<open>ValueError\<close>. Otherwise the call blocks for \<open>x\<close> seconds. The bound is on the real
  value: the rounding of the double next to it is not modelled.
\<close>

definition ns_per_second :: real where
  "ns_per_second = 1000000000"

definition ns_limit :: real where
  "ns_limit = 9223372036854775808"

fun sleep_exn :: "pyfloat \<Rightarrow> exn option" where
  "sleep_exn (Finite r) =
     (if r * ns_per_second < - ns_limit \<or> ns_limit \<le> r * ns_per_second
      then Some OverflowError
      else if r < 0 then Some ValueError
      else None)"
| "sleep_exn PosInf = Some OverflowError"
| "sleep_exn NegInf = Some OverflowError"
| "sleep_exn NaN = Some ValueError"

fun sleep_time :: "pyfloat \<Rightarrow> real" where
  "sleep_time (Finite r) = r"
| "sleep_time _ = 0"

text \<open>
  \<open>str.strip()\<close> with no argument removes leading and trailing whitespace; these are
  the ASCII characters for which \<open>str.isspace\<close> holds.
\<close>

definition is_space :: "char \<Rightarrow> bool" where
  "is_space c =
     (c \<in> set [CHR '' '', CHR 0x09, CHR 0x0A, CHR 0x0B, CHR 0x0C, CHR 0x0D,
                CHR 0x1C, CHR 0x1D, CHR 0x1E, CHR 0x1F])"

definition strip :: "string \<Rightarrow> string" where
  "strip s = rev (dropWhile is_space (rev (dropWhile is_space s)))"

text \<open>
  The builtin \<open>float(str)\<close> is not code of the repository: the configurator takes it as a
  parameter \<open>float_of\<close>, where \<open>None\<close> is \<open>ValueError\<close>. The function \<open>float_decimal\<close>
  is the instance used to run the model on concrete arguments: it reads plain decimal
  literals (\<open>[sign] digits [. digits]\<close>, surrounding whitespace ignored), on which it
  agrees with \<open>float()\<close> up to rounding. Every other string is \<open>None\<close> for it, also the
  exponents, underscores, \<open>inf\<close> and \<open>nan\<close> that \<open>float()\<close> reads.
\<close>

definition digit_of :: "char \<Rightarrow> nat option" where
  "digit_of c = map_of (zip ''0123456789'' [0, 1, 2, 3, 4, 5, 6, 7, 8, 9]) c"

fun digits_val :: "nat \<Rightarrow> string \<Rightarrow> nat option" where
  "digits_val acc [] = Some acc"
| "digits_val acc (c # cs) =
     (case digit_of c of None \<Rightarrow> None | Some d \<Rightarrow> digits_val (10 * acc + d) cs)"

definition unsigned_decimal :: "string \<Rightarrow> real option" where
  "unsigned_decimal s =
     (let ip = takeWhile (\<lambda>c. c \<noteq> CHR ''.'') s;
          rest = dropWhile (\<lambda>c. c \<noteq> CHR ''.'') s;
          fp = (case rest of [] \<Rightarrow> [] | _ # f \<Rightarrow> f)
      in if ip = [] \<and> fp = [] then None
         else (case (digits_val 0 ip, digits_val 0 fp) of
                 (Some i, Some f) \<Rightarrow> Some (real i + real f / 10 ^ length fp)
               | _ \<Rightarrow> None))"

definition float_decimal :: "string \<Rightarrow> pyfloat option" where
  "float_decimal s =
     (case strip s of
        [] \<Rightarrow> None
      | c # cs \<Rightarrow>
          if c = CHR ''-'' then map_option (\<lambda>r. Finite (- r)) (unsigned_decimal cs)
          else if c = CHR ''+'' then map_option Finite (unsigned_decimal cs)
          else map_option Finite (unsigned_decimal (c # cs)))"

section \<open>beam\_blank.py: the beam controller\<close>

text \<open>
  \<open>is_blank\<close> first holds what \<open>GetBeamBlank()\<close> returned (an integer) and a
  \<open>bool\<close> after the first toggle, so it is a Python value read through its truth value.
\<close>

datatype pyval = PyBool bool | PyInt int

fun truthy :: "pyval \<Rightarrow> bool" where
  "truthy (PyBool b) = b"
| "truthy (PyInt i) = (i \<noteq> 0)"

text \<open>\<open>v == True\<close>: \<open>True\<close> equals the integer 1.\<close>

fun eq_True :: "pyval \<Rightarrow> bool" where
  "eq_True (PyBool b) = b"
| "eq_True (PyInt i) = (i = 1)"

text \<open>
  The application object: the believed beam state, the button's label and colour, and
  the arguments of the \<open>SetBeamBlank\<close> calls issued so far (oldest first).
\<close>

record beam_app =
  is_blank :: pyval
  btn_text :: string
  btn_bg :: string
  set_beam_blank_calls :: "int list"

definition beam_init :: "pyval \<Rightarrow> beam_app" where
  "beam_init g =
     (if eq_True g
      then \<lparr>is_blank = g, btn_text = ''Unblank Beam'', btn_bg = ''#65A8E1'',
            set_beam_blank_calls = []\<rparr>
      else \<lparr>is_blank = g, btn_text = ''Blank Beam'', btn_bg = ''#32CD32'',
            set_beam_blank_calls = []\<rparr>)"

text \<open>
  \<open>toggle_beam\<close>: the branch is chosen by the truth value of \<open>is_blank\<close>; it issues
  \<open>SetBeamBlank\<close>, relabels the button and assigns the new \<open>is_blank\<close>, in that order.
  The script has no handler around the PyJEM call, which is taken to return.
\<close>

definition toggle_beam :: "beam_app \<Rightarrow> beam_app" where
  "toggle_beam a =
     (if truthy (is_blank a) then
        a\<lparr>set_beam_blank_calls := set_beam_blank_calls a @ [1],
          btn_text := ''Unblank Beam'', btn_bg := ''#65A8E1'',
          is_blank := PyBool False\<rparr>
      else
        a\<lparr>set_beam_blank_calls := set_beam_blank_calls a @ [0],
          btn_text := ''Blank Beam'', btn_bg := ''#32CD32'',
          is_blank := PyBool True\<rparr>)"

section \<open>stage\_logger.py: what the script prints\<close>

text \<open>
  One constructor for each \<open>print\<close>, or block of \<open>print\<close>s that always come together,
  carrying the values shown when a property depends on them. In the display of the
  configurator, \<open>MsgConfigHead\<close> is lines 203 to 205, \<open>MsgConfigRate\<close> line 206 with the
  interval and the rate, \<open>MsgConfigFile\<close> line 207, \<open>MsgDirProbe\<close> the line the probe
  prints, and \<open>MsgOptions\<close> lines 219 to 223.
\<close>

datatype msg =
    MsgReceivedSignal
  | MsgTemConnected
  | MsgTemConnectFailed
  | MsgReadError
  | MsgCreatedLog
  | MsgAppendingLog
  | MsgCsvSetupError
  | MsgWriteError
  | MsgRunBanner
  | MsgInitFailed
  | MsgSetupFailed
  | MsgStatus nat real
  | MsgUnexpected exn
  | MsgCleaningUp
  | MsgClosedLog
  | MsgTemCloseError
  | MsgCleanupComplete
  | MsgConfigBanner
  | MsgInvalidIntervalArg string pyfloat
  | MsgConfigHead string
  | MsgConfigRate pyfloat pyfloat
  | MsgConfigFile
  | MsgDirProbe
  | MsgOptions
  | MsgMustBePositive
  | MsgInvalidInterval
  | MsgExiting
  | MsgInvalidChoice
  | MsgSeparator
  | MsgInstructions
  | MsgPleaseYesNo
  | MsgTitle
  | MsgAborted
  | MsgStartingLogger
  | MsgCompleted
  | MsgFailed

section \<open>stage\_logger.py: the session configurator\<close>

definition default_output :: string where
  "default_output = ''C:'' @ [CHR 0x5C] @ ''jeol_dnr'' @ [CHR 0x5C] @ ''SynergyED_stage_pos_log.csv''"

definition default_interval :: pyfloat where
  "default_interval = Finite (1 / 10)"

text \<open>
  The \<open>while True\<close> menu of \<open>get_user_parameters\<close>. Standard input is the list of
  lines still to be read; \<open>input()\<close> on the empty list raises \<open>EOFError\<close>, which nothing
  catches. Every round reads at least one line, so the recursion is on that list. The
  result is the exception that left the function, or \<open>None\<close> for \<open>(None, None)\<close>, or
  the chosen pair; with it come the lines printed and the input left over.

  The rate \<open>1/interval\<close> is computed inside the fourth \<open>print\<close> of the display, after
  the first three lines are out and before anything is read. Whether the file exists
  (line 207) and the writability probe (lines 210 to 217, which catch every exception)
  only select what is printed: they are the messages \<open>MsgConfigFile\<close> and
  \<open>MsgDirProbe\<close>, and what the probe does to the directory tree is not part of this
  model.
\<close>

fun menu ::
  "(string \<Rightarrow> pyfloat option) \<Rightarrow> string \<Rightarrow> pyfloat \<Rightarrow> string list \<Rightarrow> msg list
     \<Rightarrow> (exn + (string \<times> pyfloat) option) \<times> msg list \<times> string list" where
  "menu float_of output_file interval [] out =
     (case py_recip interval of
        Inl e \<Rightarrow> (Inl e, out @ [MsgConfigHead output_file], [])
      | Inr rate \<Rightarrow>
          (Inl EOFError,
           out @ [MsgConfigHead output_file, MsgConfigRate interval rate, MsgConfigFile,
                  MsgDirProbe, MsgOptions],
           []))"
| "menu float_of output_file interval (l # ins) out =
     (case py_recip interval of
        Inl e \<Rightarrow> (Inl e, out @ [MsgConfigHead output_file], l # ins)
      | Inr rate \<Rightarrow>
          (let out1 = out @ [MsgConfigHead output_file, MsgConfigRate interval rate,
                             MsgConfigFile, MsgDirProbe, MsgOptions];
               choice = strip l
           in if choice = ''1'' then (Inr (Some (output_file, interval)), out1, ins)
              else if choice = ''2'' then
                (case ins of
                   [] \<Rightarrow> (Inl EOFError, out1, [])
                 | l2 # ins2 \<Rightarrow>
                     (let new_output = strip l2
                      in menu float_of (if new_output \<noteq> [] then new_output else output_file)
                           interval ins2 (out1 @ [MsgSeparator])))
              else if choice = ''3'' then
                (case ins of
                   [] \<Rightarrow> (Inl EOFError, out1, [])
                 | l2 # ins2 \<Rightarrow>
                     (case float_of (strip l2) of
                        None \<Rightarrow>
                          menu float_of output_file interval ins2
                            (out1 @ [MsgInvalidInterval, MsgSeparator])
                      | Some new_interval \<Rightarrow>
                          if py_gt0 new_interval
                          then menu float_of output_file new_interval ins2 (out1 @ [MsgSeparator])
                          else menu float_of output_file interval ins2
                                 (out1 @ [MsgMustBePositive, MsgSeparator])))
              else if choice = ''4'' then (Inr None, out1 @ [MsgExiting], ins)
              else menu float_of output_file interval ins
                     (out1 @ [MsgInvalidChoice, MsgSeparator])))"

text \<open>
  \<open>get_user_parameters\<close>: \<open>argv\<close> is \<open>sys.argv\<close>, the script name first. The second
  argument goes through \<open>float()\<close> and nothing else: only \<open>ValueError\<close> selects the
  default.
\<close>

definition get_user_parameters ::
  "(string \<Rightarrow> pyfloat option) \<Rightarrow> string list \<Rightarrow> string list
     \<Rightarrow> (exn + (string \<times> pyfloat) option) \<times> msg list \<times> string list" where
  "get_user_parameters float_of argv ins =
     (let output_file = (if length argv > 1 then argv ! 1 else default_output);
          parsed =
            (if length argv > 2 then
               (case float_of (argv ! 2) of
                  None \<Rightarrow> (default_interval, [MsgInvalidIntervalArg (argv ! 2) default_interval])
                | Some v \<Rightarrow> (v, []))
             else (default_interval, []))
      in menu float_of output_file (fst parsed) ins ([MsgConfigBanner] @ snd parsed))"

text \<open>\<open>str.lower()\<close> on ASCII letters.\<close>

definition lower_char :: "char \<Rightarrow> char" where
  "lower_char c =
     (case map_of (zip ''ABCDEFGHIJKLMNOPQRSTUVWXYZ'' ''abcdefghijklmnopqrstuvwxyz'') c of
        None \<Rightarrow> c
      | Some d \<Rightarrow> d)"

definition lower :: "string \<Rightarrow> string" where
  "lower s = map lower_char s"

fun ask_yes_no :: "string list \<Rightarrow> msg list \<Rightarrow> (exn + bool) \<times> msg list \<times> string list" where
  "ask_yes_no [] out = (Inl EOFError, out, [])"
| "ask_yes_no (l # ins) out =
     (let response = strip (lower l)
      in if response \<in> set [''y'', ''yes''] then (Inr True, out, ins)
         else if response \<in> set [''n'', ''no''] then (Inr False, out, ins)
         else ask_yes_no ins (out @ [MsgPleaseYesNo]))"

definition confirm_operation :: "string list \<Rightarrow> (exn + bool) \<times> msg list \<times> string list" where
  "confirm_operation ins = ask_yes_no ins [MsgInstructions]"

section \<open>stage\_logger.py: files, instrument and environment\<close>

text \<open>
  A path is its list of components and \<open>parent\<close> drops the last one. The file system
  maps a path to a directory or to a file holding the CSV rows that have reached it.
  A cell of a row is text, an instant of the clock (the timestamp) or a number.
\<close>

type_synonym path = "string list"

datatype cell = Str string | Stamp real | Num real

type_synonym row = "cell list"

datatype node = Dir | File "row list"

type_synonym filesystem = "path \<Rightarrow> node option"

definition parent :: "path \<Rightarrow> path" where
  "parent p = butlast p"

fun ancestors :: "path \<Rightarrow> path list" where
  "ancestors [] = [[]]"
| "ancestors (c # cs) = [] # map ((#) c) (ancestors cs)"

definition is_file :: "filesystem \<Rightarrow> path \<Rightarrow> bool" where
  "is_file f q = (case f q of Some (File rows) \<Rightarrow> True | _ \<Rightarrow> False)"

text \<open>
  \<open>q.mkdir(parents=True, exist_ok=True)\<close>: raises when \<open>q\<close> or a directory above it
  is a file, and otherwise leaves every path down to \<open>q\<close> a directory.
\<close>

definition mkdir_parents :: "filesystem \<Rightarrow> path \<Rightarrow> filesystem option" where
  "mkdir_parents f q =
     (if list_ex (is_file f) (ancestors q) then None
      else Some (\<lambda>x. if x \<in> set (ancestors q) then Some Dir else f x))"

text \<open>Rows leaving the buffer of an open file are added at the end of the file.\<close>

definition append_rows :: "filesystem \<Rightarrow> path \<Rightarrow> row list \<Rightarrow> filesystem" where
  "append_rows f p rs =
     (case f p of Some (File old) \<Rightarrow> f(p \<mapsto> File (old @ rs)) | _ \<Rightarrow> f)"

text \<open>
  The open file object: the rows written but not yet flushed, and whether \<open>close()\<close> has
  been called on it.
\<close>

record handle =
  pending :: "row list"
  is_closed :: bool

text \<open>
  Everything the script does to the outside is an event of the trace, in program order.
  \<open>TemDisconnect\<close> is a call of the adapter's \<open>disconnect()\<close>; \<open>AssignRunning\<close> is an
  assignment to \<open>self.running\<close>.
\<close>

datatype event =
    Print msg
  | AssignRunning bool
  | TemGetPos
  | TemConnect
  | TemClose
  | TemDisconnect
  | FsMkdir path
  | FsOpenAppend path
  | CsvWriteHeader
  | CsvWriteRow row
  | FileFlush
  | FileClose
  | Sleep pyfloat

text \<open>The attributes of the \<open>TEM3\<close> module that \<open>cleanup\<close> asks for with \<open>hasattr\<close>.\<close>

record adapter =
  has_disconnect :: bool
  has_close :: bool

text \<open>
  What the environment does during one pass of the loop: how long \<open>GetPos()\<close> takes and
  what it gives, whether the write goes through, and how many interrupt signals
  arrive while the loop sleeps.
\<close>

datatype reading = GetPosRaises | GetPosReturns "real list"

datatype write_outcome = WriteOk | WriterowRaises | FlushRaises

record tick =
  acq_time :: real
  reading :: reading
  writing :: write_outcome
  sigints :: nat

text \<open>
  What the environment does during one session. \<open>tem_bind_raises\<close> drives the
  \<open>except\<close> branch of \<open>initialize_tem\<close> (the statement in its \<open>try\<close> is the plain
  assignment \<open>self.tem = TEM3\<close>). \<open>early_sigints\<close> counts the interrupts that arrive
  before the loop first tests \<open>self.running\<close>; \<open>ticks\<close> is the script of the passes of
  the loop.
\<close>

record env =
  tem3 :: adapter
  tem_bind_raises :: bool
  mkdir_raises :: bool
  open_raises :: bool
  writeheader_raises :: bool
  close_raises :: bool
  tem_call_raises :: bool
  early_sigints :: nat
  ticks :: "tick list"

section \<open>stage\_logger.py: class StagePositionLogger\<close>

text \<open>
  The object's attributes, followed by the world it acts on: the file system, a clock
  in seconds, and the trace of events.
\<close>

record logger =
  output_file :: path
  interval :: pyfloat
  running :: bool
  tem :: "adapter option"
  csv_writer :: "string list option"
  csv_file :: "handle option"
  fs :: filesystem
  clock :: real
  trace :: "event list"

text \<open>Adding events at the end of the trace.\<close>

definition emit :: "event list \<Rightarrow> logger \<Rightarrow> logger" where
  "emit es s = s\<lparr>trace := trace s @ es\<rparr>"

text \<open>
  \<open>__init__\<close> (lines 31 to 40), on the path that \<open>Path(output_file)\<close> gives: the flag
  is assigned \<open>True\<close>, and from then on an interrupt runs \<open>signal_handler\<close>.
\<close>

definition init_logger :: "path \<Rightarrow> pyfloat \<Rightarrow> filesystem \<Rightarrow> logger" where
  "init_logger p i f =
     \<lparr>output_file = p, interval = i, running = True, tem = None, csv_writer = None,
      csv_file = None, fs = f, clock = 0, trace = [AssignRunning True]\<rparr>"

text \<open>\<open>signal_handler\<close> (lines 42 to 45): one printed line and one assignment.\<close>

definition signal_handler :: "logger \<Rightarrow> logger" where
  "signal_handler s = (emit [Print MsgReceivedSignal, AssignRunning False] s)\<lparr>running := False\<rparr>"

text \<open>The handler run once for each of \<open>k\<close> interrupts.\<close>

primrec deliver :: "nat \<Rightarrow> logger \<Rightarrow> logger" where
  "deliver 0 s = s"
| "deliver (Suc k) s = deliver k (signal_handler s)"

text \<open>\<open>initialize_tem\<close> (lines 47 to 56).\<close>

definition initialize_tem :: "env \<Rightarrow> logger \<Rightarrow> bool \<times> logger" where
  "initialize_tem e s =
     (if tem_bind_raises e then (False, emit [Print MsgTemConnectFailed] s)
      else (True, emit [Print MsgTemConnected] (s\<lparr>tem := Some (tem3 e)\<rparr>)))"

text \<open>The \<open>fieldnames\<close> of \<open>setup_csv_file\<close> (lines 86 and 87).\<close>

definition fieldnames :: "string list" where
  "fieldnames = [''timestamp'', ''x_position'', ''y_position'', ''z_position'',
                 ''alpha_tilt'', ''beta_tilt'']"

text \<open>The header line that \<open>writeheader\<close> produces from these names.\<close>

definition header_row :: row where
  "header_row = [Str ''timestamp'', Str ''x_position'', Str ''y_position'',
                 Str ''z_position'', Str ''alpha_tilt'', Str ''beta_tilt'']"

text \<open>
  \<open>get_stage_position\<close>: the dict is an association list in the order of the literal.
  A call that raises, and a sequence too short for index 4, both end in the handler,
  which prints and returns \<open>None\<close>.
\<close>

definition get_stage_position :: "tick \<Rightarrow> logger \<Rightarrow> (string \<times> cell) list option \<times> logger" where
  "get_stage_position t s =
     (case tem s of
        None \<Rightarrow> (None, emit [Print MsgReadError] s)
      | Some a \<Rightarrow>
          (let s1 = emit [TemGetPos] (s\<lparr>clock := clock s + acq_time t\<rparr>)
           in case reading t of
                GetPosRaises \<Rightarrow> (None, emit [Print MsgReadError] s1)
              | GetPosReturns stage_data \<Rightarrow>
                  if length stage_data < 5 then (None, emit [Print MsgReadError] s1)
                  else (Some [(''timestamp'', Stamp (clock s1)),
                              (''x_position'', Num (stage_data ! 0)),
                              (''y_position'', Num (stage_data ! 1)),
                              (''z_position'', Num (stage_data ! 2)),
                              (''alpha_tilt'', Num (stage_data ! 3)),
                              (''beta_tilt'', Num (stage_data ! 4))], s1)))"

text \<open>
  \<open>setup_csv_file\<close>. Each of the three file operations can fail for a reason the model
  of the file system shows (a file where a directory is needed, a directory where the
  file is needed) or because the environment says so; every failure ends in the
  handler. The header goes to the buffer of the open file.
\<close>

definition setup_csv_file :: "env \<Rightarrow> logger \<Rightarrow> bool \<times> logger" where
  "setup_csv_file e s =
     (let s1 = emit [FsMkdir (parent (output_file s))] s
      in case (if mkdir_raises e then None else mkdir_parents (fs s1) (parent (output_file s1))) of
           None \<Rightarrow> (False, emit [Print MsgCsvSetupError] s1)
         | Some fs1 \<Rightarrow>
             (let file_exists = (fs1 (output_file s1) \<noteq> None);
                  s2 = emit [FsOpenAppend (output_file s1)] (s1\<lparr>fs := fs1\<rparr>)
              in if open_raises e \<or> fs1 (output_file s1) = Some Dir
                 then (False, emit [Print MsgCsvSetupError] s2)
                 else
                   (let s3 = s2\<lparr>fs := (if file_exists then fs1
                                          else fs1(output_file s1 \<mapsto> File [])),
                                 csv_file := Some \<lparr>pending = [], is_closed = False\<rparr>,
                                 csv_writer := Some fieldnames\<rparr>
                    in if \<not> file_exists then
                         (if writeheader_raises e
                          then (False, emit [CsvWriteHeader, Print MsgCsvSetupError] s3)
                          else (True, emit [CsvWriteHeader, Print MsgCreatedLog]
                                        (s3\<lparr>csv_file := Some \<lparr>pending = [map Str fieldnames],
                                                               is_closed = False\<rparr>\<rparr>)))
                       else (True, emit [Print MsgAppendingLog] s3))))"

text \<open>
  \<open>DictWriter.writerow\<close> turns the dict into a row in the order of the field names,
  with the empty string for a missing key, and raises \<open>ValueError\<close> on a key that is
  not a field name.
\<close>

definition dict_row :: "string list \<Rightarrow> (string \<times> cell) list \<Rightarrow> exn + row" where
  "dict_row names d =
     (if list_ex (\<lambda>k. k \<notin> set names) (map fst d) then Inl ValueError
      else Inr (map (\<lambda>k. case map_of d k of None \<Rightarrow> Str [] | Some v \<Rightarrow> v) names))"

text \<open>
  \<open>log_position\<close>: \<open>writerow\<close> puts the row in the buffer and \<open>flush\<close> moves the buffer
  to the file. Either call can raise; after a failed \<open>flush\<close> the row stays in the
  buffer.
\<close>

definition log_position :: "tick \<Rightarrow> (string \<times> cell) list \<Rightarrow> logger \<Rightarrow> bool \<times> logger" where
  "log_position t position_data s =
     (case (csv_writer s, csv_file s) of
        (Some names, Some h) \<Rightarrow>
          (case dict_row names position_data of
             Inl x \<Rightarrow> (False, emit [Print MsgWriteError] s)
           | Inr r \<Rightarrow>
               if writing t = WriterowRaises \<or> is_closed h
               then (False, emit [CsvWriteRow r, Print MsgWriteError] s)
               else
                 (let s1 = emit [CsvWriteRow r, FileFlush]
                             (s\<lparr>csv_file := Some (h\<lparr>pending := pending h @ [r]\<rparr>)\<rparr>)
                  in if writing t = FlushRaises then (False, emit [Print MsgWriteError] s1)
                     else (True, s1\<lparr>fs := append_rows (fs s1) (output_file s1) (pending h @ [r]),
                                     csv_file := Some (h\<lparr>pending := []\<rparr>)\<rparr>)))
      | _ \<Rightarrow> (False, emit [Print MsgWriteError] s))"

text \<open>
  \<open>cleanup\<close>, in its two parts. In \<open>close_file\<close> (lines 164 to 166) the \<open>close()\<close> of
  the file is outside any \<open>try\<close>: when it raises, the exception leaves \<open>cleanup\<close> at
  once. In \<open>close_tem\<close> (lines 168 to 176) the call is \<open>connect()\<close> when the module has
  an attribute \<open>disconnect\<close>, else \<open>close()\<close> when it has that; an exception of either
  call is caught and printed.
\<close>

definition close_file :: "env \<Rightarrow> logger \<Rightarrow> exn option \<times> logger" where
  "close_file e s =
     (case csv_file s of
        None \<Rightarrow> (None, s)
      | Some h \<Rightarrow>
          if is_closed h then (None, emit [FileClose, Print MsgClosedLog] s)
          else if close_raises e
          then (Some OSError,
                emit [FileClose] (s\<lparr>csv_file := Some \<lparr>pending = [], is_closed = True\<rparr>\<rparr>))
          else (None,
                emit [FileClose, Print MsgClosedLog]
                  (s\<lparr>fs := append_rows (fs s) (output_file s) (pending h),
                     csv_file := Some \<lparr>pending = [], is_closed = True\<rparr>\<rparr>)))"

definition close_tem :: "env \<Rightarrow> logger \<Rightarrow> logger" where
  "close_tem e s =
     (case tem s of
        None \<Rightarrow> s
      | Some a \<Rightarrow>
          if has_disconnect a then
            emit (TemConnect # (if tem_call_raises e then [Print MsgTemCloseError] else [])) s
          else if has_close a then
            emit (TemClose # (if tem_call_raises e then [Print MsgTemCloseError] else [])) s
          else s)"

definition cleanup :: "env \<Rightarrow> logger \<Rightarrow> exn option \<times> logger" where
  "cleanup e s =
     (case close_file e (emit [Print MsgCleaningUp] s) of
        (Some x, s1) \<Rightarrow> (Some x, s1)
      | (None, s1) \<Rightarrow> (None, emit [Print MsgCleanupComplete] (close_tem e s1)))"

text \<open>
  One pass of the body of \<open>while self.running\<close> is \<open>iteration\<close>, entered with the
  count of logged entries. Its first part, \<open>acquire\<close>, is lines 136 to 148: the read,
  the write when something was read, the count and the status line every tenth entry.
  Its second part, \<open>pace\<close>, is line 151: \<open>time.sleep\<close> is called with the interval
  itself and either raises, which leaves the loop, or blocks for that long while the
  interrupts of this pass are handled.
\<close>

datatype pass_end = Continue | Raised exn

definition status_line :: "real \<Rightarrow> nat \<Rightarrow> logger \<Rightarrow> logger" where
  "status_line start_time log_count s =
     (if log_count mod 10 = 0 then
        (let elapsed = clock s - start_time;
             rate = (if elapsed > 0 then real log_count / elapsed else 0)
         in emit [Print (MsgStatus log_count rate)] s)
      else s)"

definition acquire :: "real \<Rightarrow> tick \<Rightarrow> nat \<Rightarrow> logger \<Rightarrow> nat \<times> logger" where
  "acquire start_time t log_count s =
     (case get_stage_position t s of
        (None, s1) \<Rightarrow> (log_count, s1)
      | (Some position_data, s1) \<Rightarrow>
          (case log_position t position_data s1 of
             (True, s2) \<Rightarrow> (log_count + 1, status_line start_time (log_count + 1) s2)
           | (False, s2) \<Rightarrow> (log_count, s2)))"

definition pace :: "tick \<Rightarrow> logger \<Rightarrow> pass_end \<times> logger" where
  "pace t s =
     (let s1 = emit [Sleep (interval s)] s
      in case sleep_exn (interval s) of
           Some x \<Rightarrow> (Raised x, s1)
         | None \<Rightarrow> (Continue, deliver (sigints t) (s1\<lparr>clock := clock s1 + sleep_time (interval s1)\<rparr>)))"

definition iteration :: "real \<Rightarrow> tick \<Rightarrow> nat \<Rightarrow> logger \<Rightarrow> pass_end \<times> nat \<times> logger" where
  "iteration start_time t log_count s =
     (case acquire start_time t log_count s of
        (n, s1) \<Rightarrow> (case pace t s1 of (r, s2) \<Rightarrow> (r, n, s2)))"

text \<open>
  The loop over the script of passes. It returns when \<open>self.running\<close> is found false
  (\<open>Continue\<close>) or when a pass raised; \<open>None\<close> says that the script ran out with the
  loop still running.
\<close>

fun sampling_loop :: "real \<Rightarrow> tick list \<Rightarrow> nat \<Rightarrow> logger \<Rightarrow> (pass_end \<times> nat \<times> logger) option" where
  "sampling_loop start_time [] log_count s =
     (if running s then None else Some (Continue, log_count, s))"
| "sampling_loop start_time (t # ts) log_count s =
     (if \<not> running s then Some (Continue, log_count, s)
      else (case iteration start_time t log_count s of
              (Raised x, n, s1) \<Rightarrow> Some (Raised x, n, s1)
            | (Continue, n, s1) \<Rightarrow> sampling_loop start_time ts n s1))"

text \<open>
  \<open>run\<close> returns \<open>True\<close> or \<open>False\<close>, or an exception leaves it (only the \<open>close()\<close> in
  \<open>cleanup\<close> can do that).
\<close>

datatype outcome = Returned bool | Uncaught exn

definition run :: "env \<Rightarrow> logger \<Rightarrow> (outcome \<times> logger) option" where
  "run e s =
     (case initialize_tem e (emit [Print MsgRunBanner] s) of
        (False, s1) \<Rightarrow> Some (Returned False, emit [Print MsgInitFailed] s1)
      | (True, s1) \<Rightarrow>
          (case setup_csv_file e s1 of
             (False, s2) \<Rightarrow> Some (Returned False, emit [Print MsgSetupFailed] s2)
           | (True, s2) \<Rightarrow>
               (case sampling_loop (clock s2) (ticks e) 0 (deliver (early_sigints e) s2) of
                  None \<Rightarrow> None
                | Some (r, n, s3) \<Rightarrow>
                    (case cleanup e (case r of Continue \<Rightarrow> s3
                                     | Raised x \<Rightarrow> emit [Print (MsgUnexpected x)] s3) of
                       (Some x, s4) \<Rightarrow> Some (Uncaught x, s4)
                     | (None, s4) \<Rightarrow> Some (Returned True, s4)))))"

section \<open>stage\_logger.py: main\<close>

text \<open>
  \<open>main\<close> gives the exit status of the process: 0 at \<open>sys.exit(0)\<close> and at the normal
  end, 1 at \<open>sys.exit(1)\<close> and when an exception is not caught. \<open>path_of\<close> is
  \<open>pathlib.Path\<close> on a string and \<open>f\<close> is the file system when the logger is built.
  \<open>None\<close> is the loop still running at the end of the script of passes.
\<close>

definition main ::
  "(string \<Rightarrow> pyfloat option) \<Rightarrow> (string \<Rightarrow> path) \<Rightarrow> string list \<Rightarrow> string list
     \<Rightarrow> env \<Rightarrow> filesystem \<Rightarrow> (nat \<times> event list) option" where
  "main float_of path_of argv ins e f =
     (case get_user_parameters float_of argv ins of
        (Inl x, out1, ins1) \<Rightarrow> Some (1, map Print (MsgTitle # out1))
      | (Inr None, out1, ins1) \<Rightarrow> Some (0, map Print (MsgTitle # out1))
      | (Inr (Some (chosen_file, chosen_interval)), out1, ins1) \<Rightarrow>
          (case confirm_operation ins1 of
             (Inl x, out2, ins2) \<Rightarrow> Some (1, map Print (MsgTitle # out1 @ out2))
           | (Inr False, out2, ins2) \<Rightarrow>
               Some (0, map Print (MsgTitle # out1 @ out2 @ [MsgAborted]))
           | (Inr True, out2, ins2) \<Rightarrow>
               (let pre = map Print (MsgTitle # out1 @ out2 @ [MsgStartingLogger])
                in case run e (init_logger (path_of chosen_file) chosen_interval f) of
                     None \<Rightarrow> None
                   | Some (Returned True, s) \<Rightarrow> Some (0, pre @ trace s @ [Print MsgCompleted])
                   | Some (Returned False, s) \<Rightarrow> Some (1, pre @ trace s @ [Print MsgFailed])
                   | Some (Uncaught x, s) \<Rightarrow> Some (1, pre @ trace s))))"

text \<open>An instance of \<open>path_of\<close>: the components between slashes and backslashes.\<close>

fun split_path :: "string \<Rightarrow> string \<Rightarrow> path" where
  "split_path acc [] = (if acc = [] then [] else [acc])"
| "split_path acc (c # cs) =
     (if c = CHR ''/'' \<or> c = CHR 0x5C
      then (if acc = [] then split_path [] cs else acc # split_path [] cs)
      else split_path (acc @ [c]) cs)"

section \<open>Reading a trace\<close>

text \<open>The arguments of the \<open>time.sleep\<close> calls and the values assigned to the flag.\<close>

fun sleeps :: "event list \<Rightarrow> pyfloat list" where
  "sleeps [] = []"
| "sleeps (Sleep d # es) = d # sleeps es"
| "sleeps (ev # es) = sleeps es"

fun flag_writes :: "event list \<Rightarrow> bool list" where
  "flag_writes [] = []"
| "flag_writes (AssignRunning b # es) = b # flag_writes es"
| "flag_writes (ev # es) = flag_writes es"

text \<open>How often a list of flag values goes from \<open>True\<close> to \<open>False\<close>, and back.\<close>

fun falls :: "bool list \<Rightarrow> nat" where
  "falls (a # b # bs) = (if a \<and> \<not> b then 1 else 0) + falls (b # bs)"
| "falls bs = 0"

fun rises :: "bool list \<Rightarrow> nat" where
  "rises (a # b # bs) = (if \<not> a \<and> b then 1 else 0) + rises (b # bs)"
| "rises bs = 0"

text \<open>The events of \<open>k\<close> handled interrupts.\<close>

definition interrupts :: "nat \<Rightarrow> event list" where
  "interrupts k = concat (replicate k [Print MsgReceivedSignal, AssignRunning False])"

text \<open>
  A pass has a failed read when \<open>GetPos()\<close> raises or returns fewer than the five
  values the dict is built from.
\<close>

definition bad_read :: "tick \<Rightarrow> bool" where
  "bad_read t = (case reading t of GetPosRaises \<Rightarrow> True | GetPosReturns vs \<Rightarrow> length vs < 5)"

text \<open>
  The flag has been assigned \<open>True\<close> once, at the start, and \<open>False\<close> ever after, and
  holds the value assigned last.
\<close>

definition flag_ok :: "logger \<Rightarrow> bool" where
  "flag_ok s =
     (flag_writes (trace s) \<noteq> [] \<and> hd (flag_writes (trace s))
      \<and> list_all Not (tl (flag_writes (trace s)))
      \<and> (running s \<longleftrightarrow> tl (flag_writes (trace s)) = []))"

section \<open>Reading a run\<close>

definition run_result :: "env \<Rightarrow> logger \<Rightarrow> outcome option" where
  "run_result e s = map_option fst (run e s)"

definition run_trace :: "env \<Rightarrow> logger \<Rightarrow> event list option" where
  "run_trace e s = map_option (trace \<circ> snd) (run e s)"

definition run_file :: "env \<Rightarrow> logger \<Rightarrow> node option" where
  "run_file e s = (case run e s of None \<Rightarrow> None | Some rs \<Rightarrow> fs (snd rs) (output_file (snd rs)))"

definition run_flag :: "env \<Rightarrow> logger \<Rightarrow> bool option" where
  "run_flag e s = map_option (running \<circ> snd) (run e s)"

definition exit_status ::
  "(string \<Rightarrow> pyfloat option) \<Rightarrow> (string \<Rightarrow> path) \<Rightarrow> string list \<Rightarrow> string list
     \<Rightarrow> env \<Rightarrow> filesystem \<Rightarrow> nat option" where
  "exit_status float_of path_of argv ins e f = map_option fst (main float_of path_of argv ins e f)"

section \<open>Concrete sessions\<close>

text \<open>
  A pass whose read gives five values after \<open>d\<close> seconds, with write outcome \<open>w\<close> and
  \<open>k\<close> interrupts; a pass whose read raises; and a session in which nothing fails
  outside the passes, with a \<open>TEM3\<close> module that has \<open>disconnect\<close> when \<open>dis\<close> holds
  (and no \<open>close\<close>).
\<close>

definition sample_tick :: "real \<Rightarrow> write_outcome \<Rightarrow> nat \<Rightarrow> tick" where
  "sample_tick d w k =
     \<lparr>acq_time = d, reading = GetPosReturns [1, 2, 3, 4, 5], writing = w, sigints = k\<rparr>"

definition failed_tick :: "nat \<Rightarrow> tick" where
  "failed_tick k = \<lparr>acq_time = 0, reading = GetPosRaises, writing = WriteOk, sigints = k\<rparr>"

definition session_env :: "bool \<Rightarrow> tick list \<Rightarrow> env" where
  "session_env dis ts =
     \<lparr>tem3 = \<lparr>has_disconnect = dis, has_close = False\<rparr>, tem_bind_raises = False,
      mkdir_raises = False, open_raises = False, writeheader_raises = False,
      close_raises = False, tem_call_raises = False, early_sigints = 0, ticks = ts\<rparr>"

definition empty_disk :: filesystem where
  "empty_disk = Map.empty"

definition used_disk :: filesystem where
  "used_disk = Map.empty([] \<mapsto> Dir, [''d''] \<mapsto> Dir,
                 [''d'', ''out.csv''] \<mapsto> File [header_row, [Stamp 7, Num 1, Num 2, Num 3, Num 4, Num 5]])"

text \<open>
  The logger of a session on the empty disk once \<open>initialize_tem\<close> and
  \<open>setup_csv_file\<close> have succeeded, as the loop finds it.
\<close>

definition ready_logger :: "pyfloat \<Rightarrow> logger" where
  "ready_logger i =
     snd (setup_csv_file (session_env True [])
            (snd (initialize_tem (session_env True [])
                    (init_logger [''d'', ''out.csv''] i empty_disk))))"

section \<open>Facts about the state and the trace\<close>

lemmas float_decimal_simps =
  float_decimal_def strip_def is_space_def unsigned_decimal_def digit_of_def

lemmas session_simps =
  run_def initialize_tem_def setup_csv_file_def cleanup_def close_file_def close_tem_def
  iteration_def acquire_def pace_def get_stage_position_def log_position_def status_line_def
  dict_row_def fieldnames_def signal_handler_def emit_def init_logger_def mkdir_parents_def
  append_rows_def parent_def is_file_def session_env_def sample_tick_def failed_tick_def
  empty_disk_def used_disk_def header_row_def ready_logger_def ns_per_second_def ns_limit_def
  Let_def

lemma emit_fields [simp]:
  "trace (emit es s) = trace s @ es"
  "fs (emit es s) = fs s"
  "csv_file (emit es s) = csv_file s"
  "csv_writer (emit es s) = csv_writer s"
  "running (emit es s) = running s"
  "interval (emit es s) = interval s"
  "output_file (emit es s) = output_file s"
  "tem (emit es s) = tem s"
  "clock (emit es s) = clock s"
  by (simp_all add: emit_def)

lemma signal_handler_fields [simp]:
  "trace (signal_handler s) = trace s @ [Print MsgReceivedSignal, AssignRunning False]"
  "fs (signal_handler s) = fs s"
  "csv_file (signal_handler s) = csv_file s"
  "csv_writer (signal_handler s) = csv_writer s"
  "running (signal_handler s) = False"
  "interval (signal_handler s) = interval s"
  "output_file (signal_handler s) = output_file s"
  "tem (signal_handler s) = tem s"
  "clock (signal_handler s) = clock s"
  by (simp_all add: signal_handler_def)

lemma deliver_fields [simp]:
  "fs (deliver k s) = fs s"
  "csv_file (deliver k s) = csv_file s"
  "csv_writer (deliver k s) = csv_writer s"
  "interval (deliver k s) = interval s"
  "output_file (deliver k s) = output_file s"
  "tem (deliver k s) = tem s"
  "clock (deliver k s) = clock s"
  by (induction k arbitrary: s; simp)+

lemma deliver_running [simp]: "running (deliver k s) = (running s \<and> k = 0)"
  by (induction k arbitrary: s) simp_all

lemma deliver_trace [simp]: "trace (deliver k s) = trace s @ interrupts k"
  by (induction k arbitrary: s) (simp_all add: interrupts_def)

lemma sleeps_append [simp]: "sleeps (xs @ ys) = sleeps xs @ sleeps ys"
  by (induction xs rule: sleeps.induct) simp_all

lemma sleeps_interrupts [simp]: "sleeps (interrupts k) = []"
  by (induction k) (simp_all add: interrupts_def)

lemma flag_writes_append [simp]: "flag_writes (xs @ ys) = flag_writes xs @ flag_writes ys"
  by (induction xs rule: flag_writes.induct) simp_all

lemma flag_writes_interrupts [simp]: "flag_writes (interrupts k) = replicate k False"
  by (induction k) (simp_all add: interrupts_def)

subsection \<open>The three outcomes of the acquisition step\<close>

lemma acquire_cases:
  obtains (noread) s1 where "get_stage_position t s = (None, s1)" "acquire st t n s = (n, s1)"
  | (nowrite) d s1 s2 where "get_stage_position t s = (Some d, s1)"
      "log_position t d s1 = (False, s2)" "acquire st t n s = (n, s2)"
  | (logged) d s1 s2 where "get_stage_position t s = (Some d, s1)"
      "log_position t d s1 = (True, s2)"
      "acquire st t n s = (n + 1, status_line st (n + 1) s2)"
proof -
  obtain pd s1 where g: "get_stage_position t s = (pd, s1)" by (cases "get_stage_position t s")
  show thesis
  proof (cases pd)
    case None
    with g show thesis by (intro noread [of s1]) (simp_all add: acquire_def)
  next
    case (Some d)
    obtain b s2 where l: "log_position t d s1 = (b, s2)" by (cases "log_position t d s1")
    show thesis
    proof (cases b)
      case True
      with g Some l show thesis by (intro logged [of d s1 s2]) (simp_all add: acquire_def)
    next
      case False
      with g Some l show thesis by (intro nowrite [of d s1 s2]) (simp_all add: acquire_def)
    qed
  qed
qed

lemma position_frame [simp]:
  "sleeps (trace (snd (get_stage_position t s))) = sleeps (trace s)"
  "flag_writes (trace (snd (get_stage_position t s))) = flag_writes (trace s)"
  "running (snd (get_stage_position t s)) = running s"
  "interval (snd (get_stage_position t s)) = interval s"
  by (simp_all add: get_stage_position_def Let_def split: option.splits reading.splits)

lemma log_position_frame [simp]:
  "sleeps (trace (snd (log_position t d s))) = sleeps (trace s)"
  "flag_writes (trace (snd (log_position t d s))) = flag_writes (trace s)"
  "running (snd (log_position t d s)) = running s"
  "interval (snd (log_position t d s)) = interval s"
  "clock (snd (log_position t d s)) = clock s"
  by (simp_all add: log_position_def Let_def split: option.splits sum.splits)

lemma status_line_frame [simp]:
  "sleeps (trace (status_line st n s)) = sleeps (trace s)"
  "flag_writes (trace (status_line st n s)) = flag_writes (trace s)"
  "running (status_line st n s) = running s"
  "interval (status_line st n s) = interval s"
  "clock (status_line st n s) = clock s"
  by (simp_all add: status_line_def Let_def)

lemma clock_position:
  "tem s \<noteq> None \<Longrightarrow> clock (snd (get_stage_position t s)) = clock s + acq_time t"
  by (auto simp add: get_stage_position_def Let_def split: option.splits reading.splits)

lemma acquire_frame:
  "sleeps (trace (snd (acquire st t n s))) = sleeps (trace s)
   \<and> flag_writes (trace (snd (acquire st t n s))) = flag_writes (trace s)
   \<and> running (snd (acquire st t n s)) = running s
   \<and> interval (snd (acquire st t n s)) = interval s
   \<and> (tem s \<noteq> None \<longrightarrow> clock (snd (acquire st t n s)) = clock s + acq_time t)"
proof (cases rule: acquire_cases [of t s st n])
  case (noread s1)
  then show ?thesis
    using position_frame [of t s] clock_position [of s t] by simp
next
  case (nowrite d s1 s2)
  then show ?thesis
    using position_frame [of t s] clock_position [of s t] log_position_frame [of t d s1] by simp
next
  case (logged d s1 s2)
  then show ?thesis
    using position_frame [of t s] clock_position [of s t] log_position_frame [of t d s1] by simp
qed

lemma bad_read_position:
  assumes "bad_read t"
  shows "get_stage_position t s =
           (None, if tem s = None then emit [Print MsgReadError] s
                  else emit [TemGetPos, Print MsgReadError] (s\<lparr>clock := clock s + acq_time t\<rparr>))"
  using assms
  by (auto simp: get_stage_position_def bad_read_def emit_def Let_def
           split: option.splits reading.splits)

lemma pace_sleepable:
  assumes "sleep_exn (interval s) = None"
  shows "pace t s = (Continue, deliver (sigints t)
           (emit [Sleep (interval s)] (s\<lparr>clock := clock s + sleep_time (interval s)\<rparr>)))"
  using assms by (simp add: pace_def Let_def emit_def)

lemma pace_raises:
  assumes "sleep_exn (interval s) = Some x"
  shows "pace t s = (Raised x, emit [Sleep (interval s)] s)"
  using assms by (simp add: pace_def Let_def)

lemma failed_write_not_logged: "writing t \<noteq> WriteOk \<Longrightarrow> fst (log_position t d s) = False"
  by (cases "writing t") (simp_all add: log_position_def Let_def split: option.splits sum.splits)

lemma acquire_failed_write: "writing t \<noteq> WriteOk \<Longrightarrow> fst (acquire st t n s) = n"
proof (cases rule: acquire_cases [of t s st n])
  case (logged d s1 s2)
  assume "writing t \<noteq> WriteOk"
  then have "fst (log_position t d s1) = False" by (rule failed_write_not_logged)
  with logged show ?thesis by simp
qed simp_all

lemma failed_write_pass:
  assumes "writing t \<noteq> WriteOk" and "sleep_exn (interval s) = None"
  shows "\<exists>s'. iteration st t n s = (Continue, n, s')
           \<and> running s' = (running s \<and> sigints t = 0) \<and> interval s' = interval s"
proof -
  obtain n1 s1 where a: "acquire st t n s = (n1, s1)" by (cases "acquire st t n s")
  have n1: "n1 = n" using acquire_failed_write [OF assms(1), of st n s] a by simp
  have i1: "interval s1 = interval s" and r1: "running s1 = running s"
    using acquire_frame [of st t n s] a by simp_all
  have "sleep_exn (interval s1) = None" using i1 assms(2) by simp
  then show ?thesis using a n1 i1 r1 by (simp add: iteration_def pace_sleepable)
qed

subsection \<open>Directories and files\<close>

lemma ancestors_length: "a \<in> set (ancestors q) \<Longrightarrow> length a \<le> length q"
  by (induction q arbitrary: a) auto

lemma not_own_ancestor: "p \<noteq> [] \<Longrightarrow> p \<notin> set (ancestors (parent p))"
proof
  assume ne: "p \<noteq> []" and mem: "p \<in> set (ancestors (parent p))"
  from mem have "length p \<le> length (parent p)" by (rule ancestors_length)
  moreover from ne have "length (parent p) < length p" by (simp add: parent_def)
  ultimately show False by simp
qed

lemma root_is_ancestor: "[] \<in> set (ancestors q)"
  by (cases q) simp_all

lemma mkdir_parents_keeps_files:
  assumes "mkdir_parents f q = Some g" and "f x = Some (File rows)"
  shows "g x = Some (File rows)"
proof -
  from assms(1) have no: "\<not> list_ex (is_file f) (ancestors q)"
    and g: "g = (\<lambda>x. if x \<in> set (ancestors q) then Some Dir else f x)"
    by (auto simp: mkdir_parents_def split: if_splits)
  from assms(2) have "is_file f x" by (simp add: is_file_def)
  with no have "x \<notin> set (ancestors q)" by (auto simp: list_ex_iff)
  with g assms(2) show ?thesis by simp
qed

lemma mkdir_parents_dirs:
  "mkdir_parents f q = Some g \<Longrightarrow> a \<in> set (ancestors q) \<Longrightarrow> g a = Some Dir"
  by (auto simp: mkdir_parents_def split: if_splits)

lemma mkdir_parents_other:
  "mkdir_parents f q = Some g \<Longrightarrow> a \<notin> set (ancestors q) \<Longrightarrow> g a = f a"
  by (auto simp: mkdir_parents_def split: if_splits)

lemma setup_keeps_files:
  assumes "fs s x = Some (File rows)"
  shows "fs (snd (setup_csv_file e s)) x = Some (File rows)"
proof (cases "mkdir_raises e")
  case True
  then show ?thesis using assms by (simp add: setup_csv_file_def Let_def)
next
  case False
  show ?thesis
  proof (cases "mkdir_parents (fs s) (parent (output_file s))")
    case None
    then show ?thesis using assms False by (simp add: setup_csv_file_def Let_def)
  next
    case (Some g)
    have gx: "g x = Some (File rows)" using Some assms by (rule mkdir_parents_keeps_files)
    show ?thesis using Some gx False
      by (auto simp: setup_csv_file_def Let_def)
  qed
qed

lemma setup_success:
  assumes ok: "setup_csv_file e s = (True, s')"
  shows "(\<forall>a \<in> set (ancestors (parent (output_file s))). fs s' a = Some Dir)
       \<and> fs s' (output_file s) =
           (if fs s (output_file s) = None then Some (File []) else fs s (output_file s))
       \<and> csv_file s' =
           Some \<lparr>pending = (if fs s (output_file s) = None then [header_row] else []),
                 is_closed = False\<rparr>
       \<and> trace s' = trace s @ [FsMkdir (parent (output_file s)), FsOpenAppend (output_file s)]
           @ (if fs s (output_file s) = None then [CsvWriteHeader, Print MsgCreatedLog]
              else [Print MsgAppendingLog])"
proof -
  let ?p = "output_file s"
  from ok obtain g where mk: "mkdir_parents (fs s) (parent ?p) = Some g"
    by (cases "mkdir_parents (fs s) (parent ?p)")
       (auto simp: setup_csv_file_def Let_def split: if_splits)
  from ok mk have nr: "\<not> mkdir_raises e" and no: "\<not> open_raises e" and nd: "g ?p \<noteq> Some Dir"
    by (auto simp: setup_csv_file_def Let_def split: if_splits)
  have ne: "?p \<noteq> []"
  proof
    assume "?p = []"
    then have "g ?p = Some Dir" using mk root_is_ancestor by (simp add: mkdir_parents_dirs)
    with nd show False by simp
  qed
  have same: "g ?p = fs s ?p"
    using mk not_own_ancestor [OF ne] by (rule mkdir_parents_other)
  have anc: "a \<in> set (ancestors (parent ?p)) \<Longrightarrow> a \<noteq> ?p" for a
    using not_own_ancestor [OF ne] by auto
  have dirs: "\<forall>a \<in> set (ancestors (parent ?p)). fs s' a = Some Dir"
    using ok mk nr no nd anc
    by (auto simp: setup_csv_file_def Let_def mkdir_parents_dirs split: if_splits)
  have kept: "fs s' ?p = (if fs s ?p = None then Some (File []) else fs s ?p)"
    using ok mk nr no same
    by (auto simp: setup_csv_file_def Let_def split: if_splits)
  have buf: "csv_file s' =
      Some \<lparr>pending = (if fs s ?p = None then [header_row] else []), is_closed = False\<rparr>"
    using ok mk nr no same
    by (auto simp: setup_csv_file_def Let_def fieldnames_def header_row_def split: if_splits)
  have tr: "trace s' = trace s @ [FsMkdir (parent ?p), FsOpenAppend ?p]
           @ (if fs s ?p = None then [CsvWriteHeader, Print MsgCreatedLog]
              else [Print MsgAppendingLog])"
    using ok mk nr no same
    by (auto simp: setup_csv_file_def Let_def split: if_splits)
  from dirs kept buf tr show ?thesis by blast
qed

subsection \<open>The running flag along a session\<close>

lemma flag_ok_same:
  "flag_writes (trace s') = flag_writes (trace s) \<Longrightarrow> running s' = running s
     \<Longrightarrow> flag_ok s' = flag_ok s"
  by (simp add: flag_ok_def)

lemma flag_ok_emit: "flag_writes es = [] \<Longrightarrow> flag_ok (emit es s) = flag_ok s"
  by (simp add: flag_ok_def)

lemma flag_ok_signal_handler: "flag_ok s \<Longrightarrow> flag_ok (signal_handler s)"
  by (simp add: flag_ok_def)

lemma flag_ok_deliver: "flag_ok s \<Longrightarrow> flag_ok (deliver k s)"
  by (induction k arbitrary: s) (simp_all add: flag_ok_signal_handler)

lemma flag_ok_pace: "flag_ok s \<Longrightarrow> flag_ok (snd (pace t s))"
proof (cases "sleep_exn (interval s)")
  case None
  assume ok: "flag_ok s"
  have "flag_ok (emit [Sleep (interval s)] (s\<lparr>clock := clock s + sleep_time (interval s)\<rparr>))"
    using ok by (simp add: flag_ok_def)
  then show ?thesis using None by (simp add: pace_sleepable flag_ok_deliver)
next
  case (Some x)
  assume "flag_ok s"
  then show ?thesis using Some by (simp add: pace_def Let_def flag_ok_def)
qed

lemma flag_ok_iteration: "flag_ok s \<Longrightarrow> flag_ok (snd (snd (iteration st t n s)))"
proof -
  assume ok: "flag_ok s"
  obtain n1 s1 where a: "acquire st t n s = (n1, s1)" by (cases "acquire st t n s")
  have "flag_ok s1 = flag_ok s"
    using acquire_frame [of st t n s] a by (intro flag_ok_same) simp_all
  with ok have "flag_ok (snd (pace t s1))" by (simp add: flag_ok_pace)
  then show ?thesis using a by (cases "pace t s1") (simp add: iteration_def)
qed

lemma flag_ok_sampling_loop:
  "flag_ok s \<Longrightarrow> sampling_loop st ts n s = Some (r, n', s') \<Longrightarrow> flag_ok s'"
proof (induction ts arbitrary: n s)
  case Nil
  then show ?case by (simp split: if_splits)
next
  case (Cons t ts)
  show ?case
  proof (cases "running s")
    case False
    with Cons.prems show ?thesis by simp
  next
    case True
    obtain r1 n1 s1 where it: "iteration st t n s = (r1, n1, s1)"
      by (cases "iteration st t n s")
    have ok1: "flag_ok s1" using flag_ok_iteration [OF Cons.prems(1), of st t n] it by simp
    show ?thesis
    proof (cases r1)
      case Continue
      with Cons.prems(2) True it have "sampling_loop st ts n1 s1 = Some (r, n', s')" by simp
      with ok1 show ?thesis by (rule Cons.IH)
    next
      case (Raised x)
      with Cons.prems(2) True it ok1 show ?thesis by simp
    qed
  qed
qed

lemma flag_ok_initialize_tem: "flag_ok (snd (initialize_tem e s)) = flag_ok s"
  by (simp add: initialize_tem_def flag_ok_def)

lemma flag_ok_setup: "flag_ok (snd (setup_csv_file e s)) = flag_ok s"
  by (simp add: setup_csv_file_def Let_def flag_ok_def split: option.splits)

lemma flag_ok_cleanup: "flag_ok (snd (cleanup e s)) = flag_ok s"
  by (simp add: cleanup_def close_file_def close_tem_def flag_ok_def
        split: option.splits prod.splits)

lemma flag_ok_run:
  assumes "flag_ok s" and "run e s = Some (r, s')"
  shows "flag_ok s'"
proof -
  let ?s0 = "emit [Print MsgRunBanner] s"
  have ok0: "flag_ok ?s0" using assms(1) by (simp add: flag_ok_emit)
  obtain b1 s1 where i: "initialize_tem e ?s0 = (b1, s1)" by (cases "initialize_tem e ?s0")
  have ok1: "flag_ok s1" using flag_ok_initialize_tem [of e ?s0] i ok0 by simp
  show ?thesis
  proof (cases b1)
    case False
    with assms(2) i ok1 show ?thesis by (auto simp: run_def flag_ok_emit)
  next
    case True
    obtain b2 s2 where u: "setup_csv_file e s1 = (b2, s2)" by (cases "setup_csv_file e s1")
    have ok2: "flag_ok s2" using flag_ok_setup [of e s1] u ok1 by simp
    show ?thesis
    proof (cases b2)
      case False
      with assms(2) i u ok2 \<open>b1\<close> show ?thesis by (auto simp: run_def flag_ok_emit)
    next
      case b2: True
      from assms(2) i u True b2 obtain r3 n3 s3
        where l: "sampling_loop (clock s2) (ticks e) 0 (deliver (early_sigints e) s2)
                    = Some (r3, n3, s3)"
        by (auto simp: run_def split: option.splits)
      have ok3: "flag_ok s3"
        using flag_ok_sampling_loop [OF flag_ok_deliver [OF ok2] l] .
      let ?s4 = "case r3 of Continue \<Rightarrow> s3 | Raised x \<Rightarrow> emit [Print (MsgUnexpected x)] s3"
      have ok4: "flag_ok ?s4" using ok3 by (cases r3) (simp_all add: flag_ok_emit)
      have "s' = snd (cleanup e ?s4)"
        using assms(2) i u True b2 l by (auto simp: run_def split: prod.splits option.splits)
      then show ?thesis using flag_ok_cleanup [of e ?s4] ok4 by simp
    qed
  qed
qed

lemma rises_all_false: "list_all Not bs \<Longrightarrow> rises (b # bs) = 0"
  by (induction bs arbitrary: b) simp_all

lemma falls_all_false: "list_all Not bs \<Longrightarrow> falls (False # bs) = 0"
  by (induction bs) simp_all

lemma falls_true_then_false:
  "list_all Not bs \<Longrightarrow> falls (True # bs) = (if bs = [] then 0 else 1)"
  by (cases bs) (simp_all add: falls_all_false)

lemma flag_ok_counts:
  "flag_ok s \<Longrightarrow> rises (flag_writes (trace s)) = 0
     \<and> falls (flag_writes (trace s)) = (if running s then 0 else 1)"
  by (cases "flag_writes (trace s)")
     (auto simp: flag_ok_def rises_all_false falls_true_then_false)

section \<open>Teardown\<close>

text \<open>
  Claim C1 says that every way out of the sampling loop ends with the sink's \<open>close()\<close>
  followed by the adapter's \<open>disconnect()\<close>. The session below is stopped by one
  interrupt after one sample, with a \<open>TEM3\<close> module that has \<open>disconnect\<close>: the file
  is closed, and the adapter call that follows is \<open>connect()\<close>. No \<open>TemDisconnect\<close>
  occurs in the trace.
\<close>

theorem teardown_calls_connect:
  "run_trace (session_env True [sample_tick 0 WriteOk (Suc 0)])
     (init_logger [''d'', ''out.csv''] (Finite (1 / 10)) empty_disk) =
   Some [AssignRunning True, Print MsgRunBanner, Print MsgTemConnected,
         FsMkdir [''d''], FsOpenAppend [''d'', ''out.csv''], CsvWriteHeader, Print MsgCreatedLog,
         TemGetPos, CsvWriteRow [Stamp 0, Num 1, Num 2, Num 3, Num 4, Num 5], FileFlush,
         Sleep (Finite (1 / 10)), Print MsgReceivedSignal, AssignRunning False,
         Print MsgCleaningUp, FileClose, Print MsgClosedLog, TemConnect,
         Print MsgCleanupComplete]"
  by (simp add: run_trace_def session_simps)

section \<open>Pacing\<close>




section \<open>Write failures\<close>

text \<open>
  Claim C3, as amended: a write failure does not end the session and is not counted,
  and no number of consecutive write failures does: after any run of passes whose
  writes fail (no interrupt arriving, the interval one that \<open>time.sleep\<close> accepts) the
  loop goes on with the rest of the session, still running and with the same count of
  logged entries.
\<close>

theorem write_failures_never_stop_the_loop:
  assumes "\<forall>t \<in> set fails. writing t \<noteq> WriteOk \<and> sigints t = 0"
    and "running s" and "sleep_exn (interval s) = None"
  shows "\<exists>s'. sampling_loop st (fails @ rest) n s = sampling_loop st rest n s'
           \<and> running s' \<and> interval s' = interval s"
  using assms
proof (induction fails arbitrary: s)
  case Nil
  then show ?case by auto
next
  case (Cons t fails)
  from Cons.prems have w: "writing t \<noteq> WriteOk" and k: "sigints t = 0" by simp_all
  from failed_write_pass [OF w Cons.prems(3), of st n] k Cons.prems(2)
  obtain s1 where it: "iteration st t n s = (Continue, n, s1)"
    and r1: "running s1" and i1: "interval s1 = interval s" by auto
  from Cons.prems(1) have more: "\<forall>t \<in> set fails. writing t \<noteq> WriteOk \<and> sigints t = 0"
    by simp
  from Cons.IH [OF more r1] i1 Cons.prems(3)
  obtain s' where "sampling_loop st (fails @ rest) n s1 = sampling_loop st rest n s'"
    and "running s'" and "interval s' = interval s1" by auto
  with it i1 Cons.prems(2) show ?case by auto
qed

text \<open>Three failed writes in a row, followed by the rest of a session.\<close>

theorem write_failures_never_stop_the_loop_witness:
  "writing (sample_tick 0 WriterowRaises 0) \<noteq> WriteOk
   \<and> writing (sample_tick 0 FlushRaises 0) \<noteq> WriteOk
   \<and> sigints (sample_tick 0 WriterowRaises 0) = 0
   \<and> sigints (sample_tick 0 FlushRaises 0) = 0
   \<and> running (ready_logger (Finite (1 / 2)))
   \<and> sleep_exn (interval (ready_logger (Finite (1 / 2)))) = None
   \<and> (\<exists>s'. sampling_loop 0
              ([sample_tick 0 WriterowRaises 0, sample_tick 0 FlushRaises 0,
                sample_tick 0 WriterowRaises 0] @ [sample_tick 0 WriteOk (Suc 0)])
              0 (ready_logger (Finite (1 / 2)))
            = sampling_loop 0 [sample_tick 0 WriteOk (Suc 0)] 0 s'
          \<and> running s' \<and> interval s' = interval (ready_logger (Finite (1 / 2))))"
proof -
  have f: "\<forall>t \<in> set [sample_tick 0 WriterowRaises 0, sample_tick 0 FlushRaises 0,
                sample_tick 0 WriterowRaises 0]. writing t \<noteq> WriteOk \<and> sigints t = 0"
    by (simp add: sample_tick_def)
  have r: "running (ready_logger (Finite (1 / 2)))"
    and i: "sleep_exn (interval (ready_logger (Finite (1 / 2)))) = None"
    by (simp_all add: session_simps)
  have w: "writing (sample_tick 0 WriterowRaises 0) \<noteq> WriteOk
      \<and> writing (sample_tick 0 FlushRaises 0) \<noteq> WriteOk
      \<and> sigints (sample_tick 0 WriterowRaises 0) = 0
      \<and> sigints (sample_tick 0 FlushRaises 0) = 0"
    by (simp add: sample_tick_def)
  from w r i write_failures_never_stop_the_loop
                 [where st = 0 and rest = "[sample_tick 0 WriteOk (Suc 0)]" and n = 0, OF f r i]
  show ?thesis by blast
qed

text \<open>
  The whole program on a session whose first three writes fail: the loop makes a
  fourth pass, and the process ends with exit status 0.
\<close>

theorem write_failures_counterexample:
  "exit_status float_decimal (split_path []) [''stage_logger.py'', ''d/out.csv'', ''0.5'']
     [''1'', ''y'']
     (session_env True [sample_tick 0 WriterowRaises 0, sample_tick 0 FlushRaises 0,
                        sample_tick 0 WriterowRaises 0, sample_tick 0 WriteOk (Suc 0)])
     empty_disk = Some 0
   \<and> run_trace
        (session_env True [sample_tick 0 WriterowRaises 0, sample_tick 0 FlushRaises 0,
                           sample_tick 0 WriterowRaises 0, sample_tick 0 WriteOk (Suc 0)])
        (init_logger [''d'', ''out.csv''] (Finite (1 / 2)) empty_disk) =
      Some [AssignRunning True, Print MsgRunBanner, Print MsgTemConnected,
            FsMkdir [''d''], FsOpenAppend [''d'', ''out.csv''], CsvWriteHeader,
            Print MsgCreatedLog,
            TemGetPos, CsvWriteRow [Stamp 0, Num 1, Num 2, Num 3, Num 4, Num 5],
            Print MsgWriteError, Sleep (Finite (1 / 2)),
            TemGetPos, CsvWriteRow [Stamp (1 / 2), Num 1, Num 2, Num 3, Num 4, Num 5], FileFlush,
            Print MsgWriteError, Sleep (Finite (1 / 2)),
            TemGetPos, CsvWriteRow [Stamp 1, Num 1, Num 2, Num 3, Num 4, Num 5],
            Print MsgWriteError, Sleep (Finite (1 / 2)),
            TemGetPos, CsvWriteRow [Stamp (3 / 2), Num 1, Num 2, Num 3, Num 4, Num 5], FileFlush,
            Sleep (Finite (1 / 2)), Print MsgReceivedSignal, AssignRunning False,
            Print MsgCleaningUp, FileClose, Print MsgClosedLog, TemConnect,
            Print MsgCleanupComplete]"
  by (simp add: exit_status_def main_def get_user_parameters_def confirm_operation_def
        lower_def lower_char_def float_decimal_simps run_trace_def session_simps)

section \<open>The interval given on the command line\<close>

text \<open>
  Claim C4 says that an interval argument that is not positive is rejected in favour
  of the default 0.1, with a warning. With the arguments \<open>out.csv -1\<close> and the operator
  choosing to start, \<open>get_user_parameters\<close> returns the interval \<open>-1\<close> and prints no
  warning. The same value typed at menu option 3 is refused with the message that the
  interval must be positive, and the interval stays as it was.
\<close>

theorem negative_interval_argument_accepted:
  "get_user_parameters float_decimal [''stage_logger.py'', ''out.csv'', ''-1''] [''1''] =
     (Inr (Some (''out.csv'', Finite (- 1))),
      [MsgConfigBanner, MsgConfigHead ''out.csv'', MsgConfigRate (Finite (- 1)) (Finite (- 1)),
       MsgConfigFile, MsgDirProbe, MsgOptions], [])
   \<and> get_user_parameters float_decimal [''stage_logger.py'', ''out.csv''] [''3'', ''-1'', ''1''] =
     (Inr (Some (''out.csv'', Finite (1 / 10))),
      [MsgConfigBanner, MsgConfigHead ''out.csv'', MsgConfigRate (Finite (1 / 10)) (Finite 10),
       MsgConfigFile, MsgDirProbe, MsgOptions, MsgMustBePositive, MsgSeparator,
       MsgConfigHead ''out.csv'', MsgConfigRate (Finite (1 / 10)) (Finite 10),
       MsgConfigFile, MsgDirProbe, MsgOptions], [])"
  by (simp add: get_user_parameters_def float_decimal_simps default_interval_def Let_def)

text \<open>
  Claim C8: when the second command-line argument parses to zero, \<open>get_user_parameters\<close>
  ends with \<open>ZeroDivisionError\<close>. The banner and the first lines of the display are
  printed, no warning is, nothing is read from standard input, and the default is not
  used.
\<close>

theorem zero_interval_argument_raises:
  assumes "float_of a = Some (Finite 0)"
  shows "get_user_parameters float_of (prog # target # a # others) ins =
           (Inl ZeroDivisionError, [MsgConfigBanner, MsgConfigHead target], ins)"
  using assms by (cases ins) (simp_all add: get_user_parameters_def)

text \<open>The argument \<open>0\<close> itself.\<close>

theorem zero_interval_argument_raises_witness:
  "float_decimal ''0'' = Some (Finite 0) \<and>
   get_user_parameters float_decimal [''stage_logger.py'', ''out.csv'', ''0''] [''1''] =
     (Inl ZeroDivisionError, [MsgConfigBanner, MsgConfigHead ''out.csv''], [''1''])"
proof -
  have h: "float_decimal ''0'' = Some (Finite 0)"
    by (simp add: float_decimal_simps)
  from h zero_interval_argument_raises
           [where float_of = float_decimal and a = "''0''" and prog = "''stage_logger.py''"
              and target = "''out.csv''" and others = "[]" and ins = "[''1'']", OF h]
  show ?thesis by simp
qed

section \<open>Failed reads\<close>

text \<open>
  Claim C5, as amended: in a pass whose read fails (the call raises, or returns fewer
  than five values) the loop prints the read error, hands nothing to the CSV writer,
  leaves the file system and the buffer of the open file as they were, and does not
  change the count of logged entries. When the interval is one that \<open>time.sleep\<close>
  accepts, the pass continues and the loop goes on to the next pass; with any other
  interval the sleep that ends the pass raises, as it does after a good read.
\<close>

theorem failed_read_is_skipped:
  assumes "bad_read t"
  shows "\<exists>s'. iteration start_time t n s =
                 (case sleep_exn (interval s) of None \<Rightarrow> Continue | Some x \<Rightarrow> Raised x, n, s')
            \<and> fs s' = fs s \<and> csv_file s' = csv_file s
            \<and> trace s' = trace s @ (if tem s = None then [] else [TemGetPos])
                 @ [Print MsgReadError, Sleep (interval s)]
                 @ (if sleep_exn (interval s) = None then interrupts (sigints t) else [])
            \<and> (running s \<and> sleep_exn (interval s) = None \<longrightarrow>
                 sampling_loop start_time (t # ts) n s = sampling_loop start_time ts n s')"
proof (cases "sleep_exn (interval s)")
  case None
  then show ?thesis using assms
    by (simp add: iteration_def acquire_def bad_read_position pace_sleepable)
next
  case (Some x)
  then show ?thesis using assms
    by (simp add: iteration_def acquire_def bad_read_position pace_raises)
qed

text \<open>
  A pass in which \<open>GetPos()\<close> raises, in a session ready to log, and the loop over that
  pass and a good one: the loop goes on to the second pass and counts one entry.
\<close>

theorem failed_read_is_skipped_witness:
  "bad_read (failed_tick 0) \<and> running (ready_logger (Finite (1 / 10)))
   \<and> sleep_exn (interval (ready_logger (Finite (1 / 10)))) = None
   \<and> fst (iteration 0 (failed_tick 0) 0 (ready_logger (Finite (1 / 10)))) = Continue
   \<and> fst (snd (iteration 0 (failed_tick 0) 0 (ready_logger (Finite (1 / 10))))) = 0
   \<and> csv_file (snd (snd (iteration 0 (failed_tick 0) 0 (ready_logger (Finite (1 / 10))))))
       = Some \<lparr>pending = [header_row], is_closed = False\<rparr>
   \<and> map_option fst
        (sampling_loop 0 [failed_tick 0, sample_tick 0 WriteOk (Suc 0)] 0
           (ready_logger (Finite (1 / 10)))) = Some Continue
   \<and> map_option (fst \<circ> snd)
        (sampling_loop 0 [failed_tick 0, sample_tick 0 WriteOk (Suc 0)] 0
           (ready_logger (Finite (1 / 10)))) = Some 1
   \<and> map_option (trace \<circ> snd \<circ> snd)
        (sampling_loop 0 [failed_tick 0, sample_tick 0 WriteOk (Suc 0)] 0
           (ready_logger (Finite (1 / 10)))) =
      Some (trace (ready_logger (Finite (1 / 10))) @
            [TemGetPos, Print MsgReadError, Sleep (Finite (1 / 10)),
             TemGetPos, CsvWriteRow [Stamp (1 / 10), Num 1, Num 2, Num 3, Num 4, Num 5], FileFlush,
             Sleep (Finite (1 / 10)), Print MsgReceivedSignal, AssignRunning False])"
proof -
  let ?s = "ready_logger (Finite (1 / 10))"
  let ?ts = "[sample_tick 0 WriteOk (Suc 0)]"
  have b: "bad_read (failed_tick 0)" by (simp add: bad_read_def failed_tick_def)
  have r: "running ?s" and i: "sleep_exn (interval ?s) = None"
    and c: "csv_file ?s = Some \<lparr>pending = [header_row], is_closed = False\<rparr>"
    and a: "tem ?s \<noteq> None" and v: "interval ?s = Finite (1 / 10)"
    by (simp_all add: session_simps ns_per_second_def ns_limit_def)
  from failed_read_is_skipped [OF b, where start_time = 0 and n = 0 and s = ?s and ts = ?ts] r i
  obtain s' where it: "iteration 0 (failed_tick 0) 0 ?s = (Continue, 0, s')"
    and same: "csv_file s' = csv_file ?s"
    and tr: "trace s' = trace ?s @ (if tem ?s = None then [] else [TemGetPos])
                 @ [Print MsgReadError, Sleep (interval ?s)] @ interrupts (sigints (failed_tick 0))"
    and loop: "sampling_loop 0 (failed_tick 0 # ?ts) 0 ?s = sampling_loop 0 ?ts 0 s'"
    by auto
  have s': "s' = snd (snd (iteration 0 (failed_tick 0) 0 ?s))" using it by simp
  have next_pass: "map_option fst (sampling_loop 0 ?ts 0 s') = Some Continue
     \<and> map_option (fst \<circ> snd) (sampling_loop 0 ?ts 0 s') = Some 1
     \<and> map_option (trace \<circ> snd \<circ> snd) (sampling_loop 0 ?ts 0 s') =
         Some (trace s' @
            [TemGetPos, CsvWriteRow [Stamp (1 / 10), Num 1, Num 2, Num 3, Num 4, Num 5], FileFlush,
             Sleep (Finite (1 / 10)), Print MsgReceivedSignal, AssignRunning False])"
    unfolding s' by (simp add: session_simps ns_per_second_def ns_limit_def interrupts_def)
  from b r i it same c tr a v loop next_pass show ?thesis
    by (simp add: interrupts_def failed_tick_def)
qed

text \<open>
  Two sessions whose first read fails, one with interval \<open>1e10\<close> and one with interval
  \<open>-1\<close>: the sleep of the first pass raises, the loop ends there, and the second pass
  never takes place.
\<close>

theorem failed_read_counterexample:
  "run_trace (session_env True [failed_tick 0, sample_tick 0 WriteOk (Suc 0)])
     (init_logger [''d'', ''out.csv''] (Finite 10000000000) empty_disk) =
   Some [AssignRunning True, Print MsgRunBanner, Print MsgTemConnected,
         FsMkdir [''d''], FsOpenAppend [''d'', ''out.csv''], CsvWriteHeader, Print MsgCreatedLog,
         TemGetPos, Print MsgReadError, Sleep (Finite 10000000000),
         Print (MsgUnexpected OverflowError),
         Print MsgCleaningUp, FileClose, Print MsgClosedLog, TemConnect,
         Print MsgCleanupComplete]
   \<and> run_trace (session_env True [failed_tick 0, sample_tick 0 WriteOk (Suc 0)])
     (init_logger [''d'', ''out.csv''] (Finite (- 1)) empty_disk) =
   Some [AssignRunning True, Print MsgRunBanner, Print MsgTemConnected,
         FsMkdir [''d''], FsOpenAppend [''d'', ''out.csv''], CsvWriteHeader, Print MsgCreatedLog,
         TemGetPos, Print MsgReadError, Sleep (Finite (- 1)),
         Print (MsgUnexpected ValueError),
         Print MsgCleaningUp, FileClose, Print MsgClosedLog, TemConnect,
         Print MsgCleanupComplete]"
  by (simp add: run_trace_def session_simps ns_per_second_def ns_limit_def)

section \<open>Opening the sink\<close>

text \<open>
  Claim C6: \<open>setup_csv_file\<close> never changes the content of a file that exists, whether
  it succeeds or not. When it succeeds, every directory down to the parent of the
  output file exists, the file has been opened for appending (created empty when it
  was missing, left as it was otherwise), and the header row, in the order timestamp,
  x, y, z, alpha tilt, beta tilt, has been written exactly when the file did not
  exist before.
\<close>

theorem setup_csv_file_appends:
  "(\<forall>x rows. fs s x = Some (File rows) \<longrightarrow> fs (snd (setup_csv_file e s)) x = Some (File rows))
   \<and> (fst (setup_csv_file e s) \<longrightarrow>
        (\<forall>a \<in> set (ancestors (parent (output_file s))).
            fs (snd (setup_csv_file e s)) a = Some Dir)
        \<and> fs (snd (setup_csv_file e s)) (output_file s) =
            (if fs s (output_file s) = None then Some (File []) else fs s (output_file s))
        \<and> csv_file (snd (setup_csv_file e s)) =
            Some \<lparr>pending = (if fs s (output_file s) = None then [header_row] else []),
                  is_closed = False\<rparr>
        \<and> trace (snd (setup_csv_file e s)) =
            trace s @ [FsMkdir (parent (output_file s)), FsOpenAppend (output_file s)]
              @ (if fs s (output_file s) = None then [CsvWriteHeader, Print MsgCreatedLog]
                 else [Print MsgAppendingLog]))"
proof -
  have keep: "\<forall>x rows. fs s x = Some (File rows) \<longrightarrow>
                fs (snd (setup_csv_file e s)) x = Some (File rows)"
    by (simp add: setup_keeps_files)
  have opened: "fst (setup_csv_file e s) \<longrightarrow>
        (\<forall>a \<in> set (ancestors (parent (output_file s))).
            fs (snd (setup_csv_file e s)) a = Some Dir)
        \<and> fs (snd (setup_csv_file e s)) (output_file s) =
            (if fs s (output_file s) = None then Some (File []) else fs s (output_file s))
        \<and> csv_file (snd (setup_csv_file e s)) =
            Some \<lparr>pending = (if fs s (output_file s) = None then [header_row] else []),
                  is_closed = False\<rparr>
        \<and> trace (snd (setup_csv_file e s)) =
            trace s @ [FsMkdir (parent (output_file s)), FsOpenAppend (output_file s)]
              @ (if fs s (output_file s) = None then [CsvWriteHeader, Print MsgCreatedLog]
                 else [Print MsgAppendingLog])"
  proof
    assume "fst (setup_csv_file e s)"
    then have "setup_csv_file e s = (True, snd (setup_csv_file e s))"
      by (cases "setup_csv_file e s") simp
    then show "(\<forall>a \<in> set (ancestors (parent (output_file s))).
            fs (snd (setup_csv_file e s)) a = Some Dir)
        \<and> fs (snd (setup_csv_file e s)) (output_file s) =
            (if fs s (output_file s) = None then Some (File []) else fs s (output_file s))
        \<and> csv_file (snd (setup_csv_file e s)) =
            Some \<lparr>pending = (if fs s (output_file s) = None then [header_row] else []),
                  is_closed = False\<rparr>
        \<and> trace (snd (setup_csv_file e s)) =
            trace s @ [FsMkdir (parent (output_file s)), FsOpenAppend (output_file s)]
              @ (if fs s (output_file s) = None then [CsvWriteHeader, Print MsgCreatedLog]
                 else [Print MsgAppendingLog])"
      by (rule setup_success)
  qed
  from keep opened show ?thesis by (rule conjI)
qed

text \<open>
  The first run on an empty disk, which creates the directory and writes the header,
  and a later run on the file it left, which writes none and keeps the two rows.
\<close>

theorem setup_csv_file_appends_witness:
  "fst (setup_csv_file (session_env True [])
          (init_logger [''d'', ''out.csv''] (Finite (1 / 10)) empty_disk))
   \<and> [''d''] \<in> set (ancestors (parent [''d'', ''out.csv'']))
   \<and> fs (snd (setup_csv_file (session_env True [])
          (init_logger [''d'', ''out.csv''] (Finite (1 / 10)) empty_disk))) [''d''] = Some Dir
   \<and> csv_file (snd (setup_csv_file (session_env True [])
          (init_logger [''d'', ''out.csv''] (Finite (1 / 10)) empty_disk)))
       = Some \<lparr>pending = [header_row], is_closed = False\<rparr>
   \<and> fst (setup_csv_file (session_env True [])
          (init_logger [''d'', ''out.csv''] (Finite (1 / 10)) used_disk))
   \<and> used_disk [''d'', ''out.csv'']
       = Some (File [header_row, [Stamp 7, Num 1, Num 2, Num 3, Num 4, Num 5]])
   \<and> fs (snd (setup_csv_file (session_env True [])
          (init_logger [''d'', ''out.csv''] (Finite (1 / 10)) used_disk))) [''d'', ''out.csv'']
       = Some (File [header_row, [Stamp 7, Num 1, Num 2, Num 3, Num 4, Num 5]])
   \<and> csv_file (snd (setup_csv_file (session_env True [])
          (init_logger [''d'', ''out.csv''] (Finite (1 / 10)) used_disk)))
       = Some \<lparr>pending = [], is_closed = False\<rparr>"
proof -
  let ?new = "init_logger [''d'', ''out.csv''] (Finite (1 / 10)) empty_disk"
  let ?old = "init_logger [''d'', ''out.csv''] (Finite (1 / 10)) used_disk"
  have n: "fst (setup_csv_file (session_env True []) ?new)"
    and o: "fst (setup_csv_file (session_env True []) ?old)"
    by (simp_all add: session_simps)
  have d: "[''d''] \<in> set (ancestors (parent [''d'', ''out.csv'']))"
    by (simp add: parent_def)
  have u: "used_disk [''d'', ''out.csv'']
       = Some (File [header_row, [Stamp 7, Num 1, Num 2, Num 3, Num 4, Num 5]])"
    by (simp add: used_disk_def)
  have fn: "fs ?new = empty_disk" "output_file ?new = [''d'', ''out.csv'']"
    and fo: "fs ?old = used_disk" "output_file ?old = [''d'', ''out.csv'']"
    by (simp_all add: init_logger_def)
  have en: "empty_disk [''d'', ''out.csv''] = None" by (simp add: empty_disk_def)
  from n d fn en setup_csv_file_appends [where s = ?new and e = "session_env True []"]
  have first: "fs (snd (setup_csv_file (session_env True []) ?new)) [''d''] = Some Dir
     \<and> csv_file (snd (setup_csv_file (session_env True []) ?new))
         = Some \<lparr>pending = [header_row], is_closed = False\<rparr>"
    by simp
  from o u fo setup_csv_file_appends [where s = ?old and e = "session_env True []"]
  have later: "fs (snd (setup_csv_file (session_env True []) ?old)) [''d'', ''out.csv'']
         = Some (File [header_row, [Stamp 7, Num 1, Num 2, Num 3, Num 4, Num 5]])
     \<and> csv_file (snd (setup_csv_file (session_env True []) ?old))
         = Some \<lparr>pending = [], is_closed = False\<rparr>"
    by simp
  from n d first o u later show ?thesis by simp
qed

section \<open>The interrupt flag\<close>

text \<open>
  Claim C7, as amended: the handler prints one line and assigns \<open>False\<close> to the flag,
  and changes nothing else; handled a second time it leaves the state as the first
  time, but for the printed line. In every session that comes to an end the flag
  never goes from false to true, and goes from true to false at most once: once
  when the session ends with the flag false, and not at all when it ends with the
  flag still true.
\<close>

theorem running_falls_at_most_once:
  "signal_handler s =
     s\<lparr>running := False, trace := trace s @ [Print MsgReceivedSignal, AssignRunning False]\<rparr>
   \<and> (signal_handler (signal_handler s))\<lparr>trace := es\<rparr> = (signal_handler s)\<lparr>trace := es\<rparr>
   \<and> (run e (init_logger p i f) = Some (r, s') \<longrightarrow>
        rises (flag_writes (trace s')) = 0
        \<and> falls (flag_writes (trace s')) = (if running s' then 0 else 1))"
proof -
  have start: "flag_ok (init_logger p i f)" by (simp add: flag_ok_def init_logger_def)
  have once: "run e (init_logger p i f) = Some (r, s') \<longrightarrow>
        rises (flag_writes (trace s')) = 0
        \<and> falls (flag_writes (trace s')) = (if running s' then 0 else 1)"
  proof
    assume "run e (init_logger p i f) = Some (r, s')"
    with start have "flag_ok s'" by (rule flag_ok_run)
    then show "rises (flag_writes (trace s')) = 0
        \<and> falls (flag_writes (trace s')) = (if running s' then 0 else 1)"
      by (rule flag_ok_counts)
  qed
  have only: "signal_handler s =
      s\<lparr>running := False, trace := trace s @ [Print MsgReceivedSignal, AssignRunning False]\<rparr>"
    by (simp add: signal_handler_def emit_def)
  have again: "(signal_handler (signal_handler s))\<lparr>trace := es\<rparr> = (signal_handler s)\<lparr>trace := es\<rparr>"
    by (simp add: signal_handler_def emit_def)
  from only again once show ?thesis by simp
qed

text \<open>A session that two interrupts reach during its only pass.\<close>

theorem running_falls_at_most_once_witness:
  "run_result (session_env True [sample_tick 0 WriteOk (Suc (Suc 0))])
     (init_logger [''d'', ''out.csv''] (Finite (1 / 10)) empty_disk) = Some (Returned True)
   \<and> run_flag (session_env True [sample_tick 0 WriteOk (Suc (Suc 0))])
       (init_logger [''d'', ''out.csv''] (Finite (1 / 10)) empty_disk) = Some False
   \<and> map_option (rises \<circ> flag_writes)
       (run_trace (session_env True [sample_tick 0 WriteOk (Suc (Suc 0))])
          (init_logger [''d'', ''out.csv''] (Finite (1 / 10)) empty_disk)) = Some 0
   \<and> map_option (falls \<circ> flag_writes)
       (run_trace (session_env True [sample_tick 0 WriteOk (Suc (Suc 0))])
          (init_logger [''d'', ''out.csv''] (Finite (1 / 10)) empty_disk)) = Some 1"
proof -
  let ?e = "session_env True [sample_tick 0 WriteOk (Suc (Suc 0))]"
  let ?s = "init_logger [''d'', ''out.csv''] (Finite (1 / 10)) empty_disk"
  obtain s' where ran: "run ?e ?s = Some (Returned True, s')" and stopped: "\<not> running s'"
    by (simp add: session_simps)
  from ran running_falls_at_most_once
             [where e = ?e and p = "[''d'', ''out.csv'']" and i = "Finite (1 / 10)"
                and f = empty_disk and r = "Returned True" and s' = s']
  have "rises (flag_writes (trace s')) = 0
      \<and> falls (flag_writes (trace s')) = (if running s' then 0 else 1)"
    by (simp add: init_logger_def)
  with ran stopped show ?thesis
    by (simp add: run_result_def run_flag_def run_trace_def)
qed

text \<open>
  A session whose output path is a directory: opening it fails, \<open>run\<close> returns
  \<open>False\<close>, and the flag, assigned once at the start, is still true at the end.
\<close>

theorem running_never_falls_counterexample:
  "run_result (session_env True []) (init_logger [''d''] (Finite (1 / 10)) used_disk)
     = Some (Returned False)
   \<and> run_flag (session_env True []) (init_logger [''d''] (Finite (1 / 10)) used_disk) = Some True
   \<and> map_option (falls \<circ> flag_writes)
        (run_trace (session_env True []) (init_logger [''d''] (Finite (1 / 10)) used_disk))
       = Some 0"
  by (simp add: run_result_def run_flag_def run_trace_def session_simps)

section \<open>A failed connection\<close>

text \<open>
  Claim C9: when \<open>initialize_tem\<close> fails, \<open>run\<close> returns \<open>False\<close> having printed three
  lines and done nothing else: the file system, the file object and the writer are
  those it started with, and no file operation is in the trace.
\<close>

theorem connection_failure_leaves_sink_untouched:
  assumes "tem_bind_raises e"
  shows "\<exists>s'. run e s = Some (Returned False, s')
           \<and> fs s' = fs s \<and> csv_file s' = csv_file s \<and> csv_writer s' = csv_writer s
           \<and> trace s' = trace s @ [Print MsgRunBanner, Print MsgTemConnectFailed,
                                   Print MsgInitFailed]"
  using assms by (simp add: run_def initialize_tem_def emit_def)

text \<open>A session on the empty disk whose connection fails.\<close>

theorem connection_failure_leaves_sink_untouched_witness:
  "tem_bind_raises ((session_env True [])\<lparr>tem_bind_raises := True\<rparr>)
   \<and> (\<exists>s'. run ((session_env True [])\<lparr>tem_bind_raises := True\<rparr>)
              (init_logger [''d'', ''out.csv''] (Finite (1 / 10)) empty_disk)
            = Some (Returned False, s')
          \<and> fs s' = fs (init_logger [''d'', ''out.csv''] (Finite (1 / 10)) empty_disk)
          \<and> csv_file s' = csv_file (init_logger [''d'', ''out.csv''] (Finite (1 / 10)) empty_disk)
          \<and> csv_writer s' = csv_writer (init_logger [''d'', ''out.csv''] (Finite (1 / 10)) empty_disk)
          \<and> trace s' = trace (init_logger [''d'', ''out.csv''] (Finite (1 / 10)) empty_disk)
               @ [Print MsgRunBanner, Print MsgTemConnectFailed, Print MsgInitFailed])"
proof -
  have h: "tem_bind_raises ((session_env True [])\<lparr>tem_bind_raises := True\<rparr>)" by simp
  from h connection_failure_leaves_sink_untouched
           [where s = "init_logger [''d'', ''out.csv''] (Finite (1 / 10)) empty_disk", OF h]
  show ?thesis by blast
qed

section \<open>The beam toggle\<close>

text \<open>
  Claim C10: \<open>toggle_beam\<close> sets \<open>is_blank\<close> to the negation of its truth value before
  the call, so that two calls in a row give back that truth value, and the argument
  it passes to \<open>SetBeamBlank\<close> is 1 when \<open>is_blank\<close> was true before the call and 0
  otherwise: the state commanded is the state believed current, not its negation.
\<close>

theorem toggle_beam_commands_prior_state:
  "is_blank (toggle_beam a) = PyBool (\<not> truthy (is_blank a))
   \<and> is_blank (toggle_beam (toggle_beam a)) = PyBool (truthy (is_blank a))
   \<and> set_beam_blank_calls (toggle_beam a) =
       set_beam_blank_calls a @ [if truthy (is_blank a) then 1 else 0]"
  by (simp add: toggle_beam_def)

end
